theory Spec2Isabelle
  imports Main "HOL-Library.AList"
begin

section \<open>Text chunker (\<open>SileroTtsService.split_text\<close>)\<close>

text \<open>
  Python strings are modelled as \<open>string\<close>; \<open>len\<close> is \<open>length\<close>. The proofs below use
  nothing about the alphabet except that the space and the newline are two characters.

  \<open>split_chr sep s\<close> is \<open>s.split(sep)\<close> for a one-character separator: every
  occurrence of the separator cuts, so consecutive separators give empty pieces and the
  result always has at least one piece.
\<close>

fun split_chr :: "char \<Rightarrow> string \<Rightarrow> string list" where
  "split_chr sep [] = [[]]"
| "split_chr sep (c # cs) =
     (if c = sep then [] # split_chr sep cs
      else (case split_chr sep cs of
              [] \<Rightarrow> [[c]]
            | w # ws \<Rightarrow> (c # w) # ws))"

text \<open>\<open>word.replace('\n', ' ')\<close>\<close>

definition replace_nl :: "string \<Rightarrow> string" where
  "replace_nl w = map (\<lambda>c. if c = CHR 0x0A then CHR '' '' else c) w"

text \<open>
  One iteration of the loop of \<open>split_text\<close> on the state
  \<open>(chunk_list, chunk_str)\<close>; \<open>B\<close> is \<open>self.max_char_length\<close>:
  \<^verbatim>\<open>
    word = word.replace('\n',' ') + " "
    if len(chunk_str + word) > self.max_char_length:
        chunk_list.append(chunk_str)
        chunk_str = ""
    chunk_str += word
  \<close>
\<close>

definition split_step :: "nat \<Rightarrow> string list \<times> string \<Rightarrow> string \<Rightarrow> string list \<times> string" where
  "split_step B st w =
     (let chunk_list = fst st; chunk_str = snd st;
          word = replace_nl w @ '' ''
      in if length (chunk_str @ word) > B
         then (chunk_list @ [chunk_str], [] @ word)
         else (chunk_list, chunk_str @ word))"

definition split_text :: "nat \<Rightarrow> string \<Rightarrow> string list" where
  "split_text B text =
     (let st = foldl (split_step B) ([], []) (split_chr CHR '' '' text);
          chunk_list = fst st; chunk_str = snd st
      in if length chunk_str > 0 then chunk_list @ [chunk_str] else chunk_list)"

section \<open>Strings: \<open>str(int)\<close> and \<open>str.split\<close> with a longer separator\<close>

definition digit_char :: "nat \<Rightarrow> char" where
  "digit_char d = ''0123456789'' ! d"

function str_of_nat :: "nat \<Rightarrow> string" where
  "str_of_nat n =
     (if n < 10 then [digit_char n] else str_of_nat (n div 10) @ [digit_char (n mod 10)])"
  by pat_completeness auto
termination
  by (relation "measure id") auto

declare str_of_nat.simps [simp del]



definition startswith :: "string \<Rightarrow> string \<Rightarrow> bool" where
  "startswith s pre \<longleftrightarrow> take (length pre) s = pre"

section \<open>Paths and the file system\<close>

text \<open>
  A \<open>pathlib.Path\<close> is its anchor (absolute or not) and its components.
  \<open>path_of s\<close> is \<open>Path(s)\<close>: empty components and \<open>.\<close> are dropped, \<open>..\<close> is kept
  as a component. \<open>joinpath a b\<close> is \<open>a / b\<close>: an absolute right operand wins.
\<close>

datatype path = Path (is_abs: bool) (parts: "string list")

definition path_of :: "string \<Rightarrow> path" where
  "path_of s =
     Path (startswith s ''/'')
          (filter (\<lambda>p. p \<noteq> [] \<and> p \<noteq> ''.'') (split_chr CHR ''/'' s))"

definition joinpath :: "path \<Rightarrow> path \<Rightarrow> path" where
  "joinpath a b = (if is_abs b then b else Path (is_abs a) (parts a @ parts b))"

definition parent :: "path \<Rightarrow> path" where
  "parent p = Path (is_abs p) (butlast (parts p))"

text \<open>
  Audio is symbolic: a list of segments, each a silence of some milliseconds or what
  the external model synthesised for a text, a speaker and a sample rate.
  \<open>AudioSegment.empty()\<close> is \<open>[]\<close>, \<open>+\<close> is \<open>@\<close>, \<open>AudioSegment.silent(ms)\<close> is
  \<open>[Silence ms]\<close>.
\<close>

datatype seg = Silence nat | Voice string string nat

datatype content = Audio "seg list" | Text string | Bytes string

datatype node = Dir | File content

text \<open>
  The file system is an association list from paths to nodes, read with \<open>map_of\<close>.
  A path with no component (the working directory, the root) is a directory. Paths are
  identified by their spelling: symbolic links and \<open>..\<close> are not interpreted, and a
  relative spelling is not identified with an absolute one.
\<close>

type_synonym fs = "(path \<times> node) list"

datatype error =
    SessionNotInitialized
  | NotInLangs string "string list"
  | FileNotFoundError
  | FileExistsError
  | NotADirectoryError
  | IsADirectoryError
  | SameFileError
  | DecodeError
  | ModelError
  | ConnectionError
  | RemoteError nat
  | DownloadError
  | LoadError
  | JSONDecodeError

definition node_at :: "fs \<Rightarrow> path \<Rightarrow> node option" where
  "node_at fs p = (if parts p = [] then Some Dir else map_of fs p)"

definition path_exists :: "fs \<Rightarrow> path \<Rightarrow> bool" where
  "path_exists fs p \<longleftrightarrow> node_at fs p \<noteq> None"

definition is_dir :: "fs \<Rightarrow> path \<Rightarrow> bool" where
  "is_dir fs p \<longleftrightarrow> node_at fs p = Some Dir"

definition is_file :: "fs \<Rightarrow> path \<Rightarrow> bool" where
  "is_file fs p = (case node_at fs p of Some (File c) \<Rightarrow> True | _ \<Rightarrow> False)"

text \<open>
  \<open>p.mkdir(parents=True)\<close>: fails when \<open>p\<close> exists; otherwise walks from the top,
  creating each missing ancestor and then \<open>p\<close>, and fails on an ancestor that is a
  regular file.
\<close>

definition ancestors_and_self :: "path \<Rightarrow> path list" where
  "ancestors_and_self p =
     map (\<lambda>n. Path (is_abs p) (take n (parts p))) [1 ..< Suc (length (parts p))]"

fun ensure_dirs :: "fs \<Rightarrow> path list \<Rightarrow> error + fs" where
  "ensure_dirs fs [] = Inr fs"
| "ensure_dirs fs (q # qs) =
     (case node_at fs q of
        None \<Rightarrow> ensure_dirs (AList.update q Dir fs) qs
      | Some Dir \<Rightarrow> ensure_dirs fs qs
      | Some (File c) \<Rightarrow> Inl NotADirectoryError)"

definition mkdir_parents :: "fs \<Rightarrow> path \<Rightarrow> error + fs" where
  "mkdir_parents fs p =
     (if path_exists fs p then Inl FileExistsError
      else ensure_dirs fs (ancestors_and_self p))"

text \<open>Opening \<open>p\<close> for writing and writing \<open>c\<close> (\<open>open(p, 'w')\<close>, \<open>export\<close>).\<close>

definition write_file :: "fs \<Rightarrow> path \<Rightarrow> content \<Rightarrow> error + fs" where
  "write_file fs p c =
     (case node_at fs p of
        Some Dir \<Rightarrow> Inl IsADirectoryError
      | _ \<Rightarrow>
        (case node_at fs (parent p) of
           Some Dir \<Rightarrow> Inr (AList.update p (File c) fs)
         | Some (File d) \<Rightarrow> Inl NotADirectoryError
         | None \<Rightarrow> Inl FileNotFoundError))"

definition read_file :: "fs \<Rightarrow> path \<Rightarrow> error + content" where
  "read_file fs p =
     (case node_at fs p of
        Some (File c) \<Rightarrow> Inr c
      | Some Dir \<Rightarrow> Inl IsADirectoryError
      | None \<Rightarrow> Inl FileNotFoundError)"

text \<open>\<open>AudioSegment.from_file(str(p))\<close>\<close>

definition from_file :: "fs \<Rightarrow> path \<Rightarrow> error + seg list" where
  "from_file fs p =
     (case read_file fs p of
        Inl e \<Rightarrow> Inl e
      | Inr (Audio a) \<Rightarrow> Inr a
      | Inr other \<Rightarrow> Inl DecodeError)"

text \<open>
  \<open>shutil.copy(src, dst)\<close>: into \<open>dst\<close> when that is a directory, refusing to copy a
  file onto itself.
\<close>

definition shutil_copy :: "fs \<Rightarrow> path \<Rightarrow> path \<Rightarrow> error + fs" where
  "shutil_copy fs src dst =
     (case node_at fs src of
        None \<Rightarrow> Inl FileNotFoundError
      | Some Dir \<Rightarrow> Inl IsADirectoryError
      | Some (File c) \<Rightarrow>
        (let dst' = (if is_dir fs dst then joinpath dst (Path False [last (parts src)]) else dst)
         in if src = dst' then Inl SameFileError else write_file fs dst' c))"

text \<open>\<open>os.remove(p)\<close>\<close>

definition os_remove :: "fs \<Rightarrow> path \<Rightarrow> error + fs" where
  "os_remove fs p =
     (case node_at fs p of
        None \<Rightarrow> Inl FileNotFoundError
      | Some Dir \<Rightarrow> Inl IsADirectoryError
      | Some (File c) \<Rightarrow> Inr (AList.delete p fs))"

text \<open>
  \<open>src.rename(dst)\<close> for a regular file \<open>src\<close>, which is all the source renames (the
  file the model has just written); a directory as \<open>src\<close> is reported as an error here.
\<close>

definition rename_file :: "fs \<Rightarrow> path \<Rightarrow> path \<Rightarrow> error + fs" where
  "rename_file fs src dst =
     (case node_at fs src of
        None \<Rightarrow> Inl FileNotFoundError
      | Some Dir \<Rightarrow> Inl IsADirectoryError
      | Some (File c) \<Rightarrow>
        (if src = dst then Inr fs
         else (case node_at fs dst of
                 Some Dir \<Rightarrow> Inl IsADirectoryError
               | _ \<Rightarrow>
                 (case node_at fs (parent dst) of
                    Some Dir \<Rightarrow> Inr (AList.update dst (File c) (AList.delete src fs))
                  | Some (File d) \<Rightarrow> Inl NotADirectoryError
                  | None \<Rightarrow> Inl FileNotFoundError))))"

text \<open>\<open>p.iterdir()\<close>: the entries directly under \<open>p\<close>, each as \<open>p / name\<close>.\<close>

definition entries :: "fs \<Rightarrow> path \<Rightarrow> path list" where
  "entries fs p = remdups (filter (\<lambda>k. parts k \<noteq> [] \<and> parent k = p) (map fst fs))"

definition iterdir :: "fs \<Rightarrow> path \<Rightarrow> error + path list" where
  "iterdir fs p =
     (case node_at fs p of
        None \<Rightarrow> Inl FileNotFoundError
      | Some (File c) \<Rightarrow> Inl NotADirectoryError
      | Some Dir \<Rightarrow> Inr (entries fs p))"

section \<open>Session manager (\<open>SessionManager\<close>)\<close>

record session_manager =
  sessions_path :: path

definition init_session_path :: "fs \<Rightarrow> session_manager \<Rightarrow> string \<Rightarrow> error + path \<times> fs" where
  "init_session_path fs sm session_id =
     (let session_path = joinpath (sessions_path sm) (path_of session_id)
      in if \<not> path_exists fs session_path
         then (case mkdir_parents fs session_path of
                 Inl e \<Rightarrow> Inl e
               | Inr fs' \<Rightarrow> Inr (session_path, fs'))
         else Inr (session_path, fs))"

text \<open>
  \<open>date_str\<close> is what \<open>time.strftime("%Y%m%d")\<close> returns at the time of the call.
  The directory is made under \<open>if session_id is None\<close> only.
\<close>

definition create_session :: "fs \<Rightarrow> session_manager \<Rightarrow> string \<Rightarrow> string option \<Rightarrow> error + string \<times> fs" where
  "create_session fs sm date_str session_id =
     (case session_id of
        None \<Rightarrow>
          (let new_session_id = date_str;
               session_path = joinpath (sessions_path sm) (path_of new_session_id)
           in if \<not> path_exists fs session_path
              then (case mkdir_parents fs session_path of
                      Inl e \<Rightarrow> Inl e
                    | Inr fs' \<Rightarrow> Inr (new_session_id, fs'))
              else Inr (new_session_id, fs))
      | Some given \<Rightarrow> Inr (given, fs))"

definition get_session_path :: "fs \<Rightarrow> session_manager \<Rightarrow> string \<Rightarrow> error + path" where
  "get_session_path fs sm session_id =
     (let session_path = joinpath (sessions_path sm) (path_of session_id)
      in if \<not> path_exists fs session_path then Inl SessionNotInitialized
         else Inr session_path)"

section \<open>The service (\<open>SileroTtsService\<close>)\<close>

text \<open>
  The external model: its speakers, the file name \<open>save_wav\<close> writes and returns, and
  the inputs it accepts (on the others \<open>save_wav\<close> raises).
\<close>

record tts_model =
  speakers :: "string list"
  wav_out :: string
  accepts :: "string \<Rightarrow> string \<Rightarrow> bool"

definition save_wav :: "tts_model \<Rightarrow> fs \<Rightarrow> string \<Rightarrow> string \<Rightarrow> nat \<Rightarrow> error + string \<times> fs" where
  "save_wav m fs text speaker rate =
     (if accepts m text speaker
      then Inr (wav_out m, AList.update (path_of (wav_out m)) (File (Audio [Voice text speaker rate])) fs)
      else Inl ModelError)"

record response =
  ok :: bool
  status_code :: nat
  resp_text :: string

text \<open>
  The other collaborators: the HTTP client, the download of a URL's bytes, the package
  importer, and the JSON encoder and decoder for a string-to-string object.
\<close>

record external =
  http_get :: "string \<Rightarrow> response option"
  fetch_bytes :: "string \<Rightarrow> string option"
  unpickle :: "content \<Rightarrow> tts_model option"
  json_dump :: "(string \<times> string) list \<Rightarrow> string"
  json_load :: "string \<Rightarrow> (string \<times> string) list option"

record service =
  sample_text :: string
  sample_path :: path
  sample_rate :: nat
  max_char_length :: nat
  langs :: "(string \<times> string) list"
  model_file :: path
  model :: tts_model
  session_manager :: session_manager

subsection \<open>\<open>load_model\<close>\<close>

definition download_url_to_file :: "external \<Rightarrow> fs \<Rightarrow> string \<Rightarrow> path \<Rightarrow> error + fs" where
  "download_url_to_file ext fs url dst =
     (case fetch_bytes ext url of
        None \<Rightarrow> Inl DownloadError
      | Some b \<Rightarrow> write_file fs dst (Bytes b))"

definition load_pickle :: "external \<Rightarrow> fs \<Rightarrow> path \<Rightarrow> error + tts_model" where
  "load_pickle ext fs p =
     (case read_file fs p of
        Inl e \<Rightarrow> Inl e
      | Inr c \<Rightarrow> (case unpickle ext c of None \<Rightarrow> Inl LoadError | Some m \<Rightarrow> Inr m))"

definition load_model :: "external \<Rightarrow> service \<Rightarrow> fs \<Rightarrow> string \<Rightarrow> error + service \<times> fs" where
  "load_model ext svc fs lang_model =
     (case map_of (langs svc) lang_model of
        None \<Rightarrow> Inl (NotInLangs lang_model (map snd (langs svc)))
      | Some model_url \<Rightarrow>
        (let svc1 = svc\<lparr>model_file := path_of lang_model\<rparr>
         in case (if \<not> is_file fs (model_file svc1)
                  then download_url_to_file ext fs model_url (model_file svc1)
                  else Inr fs) of
              Inl e \<Rightarrow> Inl e
            | Inr fs1 \<Rightarrow>
              (case load_pickle ext fs1 (model_file svc1) of
                 Inl e \<Rightarrow> Inl e
               | Inr m \<Rightarrow> Inr (svc1\<lparr>model := m\<rparr>, fs1))))"

subsection \<open>\<open>generate\<close>\<close>

text \<open>
  The loop over the chunks, on the state \<open>(fs, combined_wav)\<close>:
  \<^verbatim>\<open>
    audio_path = Path(self.model.save_wav(text=chunk, ...))
    combined_wav += AudioSegment.silent(500)
    combined_wav += AudioSegment.from_file(str(audio_path))
  \<close>
\<close>

fun synth_chunks :: "tts_model \<Rightarrow> nat \<Rightarrow> string \<Rightarrow> string list \<Rightarrow> fs \<times> seg list \<Rightarrow> error + fs \<times> seg list" where
  "synth_chunks m rate speaker [] st = Inr st"
| "synth_chunks m rate speaker (chunk # chunks) st =
     (case save_wav m (fst st) chunk speaker rate of
        Inl e \<Rightarrow> Inl e
      | Inr (out, fs1) \<Rightarrow>
        (case from_file fs1 (path_of out) of
           Inl e \<Rightarrow> Inl e
         | Inr a \<Rightarrow> synth_chunks m rate speaker chunks (fs1, (snd st @ [Silence 500]) @ a)))"

text \<open>\<open>now\<close> is \<open>int(time.time())\<close> where the source reads the clock.\<close>

definition generate :: "service \<Rightarrow> fs \<Rightarrow> nat \<Rightarrow> string \<Rightarrow> string \<Rightarrow> string \<Rightarrow> error + path \<times> fs" where
  "generate svc fs now speaker text session =
     (case get_session_path fs (session_manager svc) session of
        Inl e \<Rightarrow> Inl e
      | Inr session_path \<Rightarrow>
        if length text > max_char_length svc then
          (let text_chunks = split_text (max_char_length svc) text
           in case synth_chunks (model svc) (sample_rate svc) speaker text_chunks (fs, []) of
                Inl e \<Rightarrow> Inl e
              | Inr (fs1, combined_wav) \<Rightarrow>
                (let final_audio_name =
                       ''tts_'' @ speaker @ ''_'' @ session @ ''_'' @ str_of_nat now @ ''_combined.wav'';
                     audio_path = joinpath session_path (path_of final_audio_name)
                 in case write_file fs1 audio_path (Audio combined_wav) of
                      Inl e \<Rightarrow> Inl e
                    | Inr fs2 \<Rightarrow> Inr (audio_path, fs2)))
        else
          (case save_wav (model svc) fs text speaker (sample_rate svc) of
             Inl e \<Rightarrow> Inl e
           | Inr (out, fs1) \<Rightarrow>
             (let audio_path = path_of out;
                  dst = joinpath session_path
                          (path_of (''tts_'' @ speaker @ ''_'' @ session @ ''_'' @ str_of_nat now @ ''.wav''))
              in case shutil_copy fs1 audio_path dst of
                   Inl e \<Rightarrow> Inl e
                 | Inr fs2 \<Rightarrow> Inr (audio_path, fs2))))"

subsection \<open>\<open>generate_samples\<close>\<close>

text \<open>The first loop: \<open>os.remove(self.sample_path.joinpath(file))\<close> for each entry.\<close>

fun remove_all :: "path \<Rightarrow> fs \<Rightarrow> path list \<Rightarrow> error + fs" where
  "remove_all sp fs [] = Inr fs"
| "remove_all sp fs (file # files) =
     (case os_remove fs (joinpath sp file) of
        Inl e \<Rightarrow> Inl e
      | Inr fs' \<Rightarrow> remove_all sp fs' files)"

text \<open>The second loop, over \<open>self.model.speakers\<close>.\<close>

fun make_samples :: "service \<Rightarrow> fs \<Rightarrow> string list \<Rightarrow> error + fs" where
  "make_samples svc fs [] = Inr fs"
| "make_samples svc fs (speaker # rest) =
     (let sample_name = joinpath (sample_path svc) (path_of (speaker @ ''.wav''))
      in if path_exists fs sample_name then make_samples svc fs rest
         else (case save_wav (model svc) fs (sample_text svc) speaker (sample_rate svc) of
                 Inl e \<Rightarrow> Inl e
               | Inr (out, fs1) \<Rightarrow>
                 (case rename_file fs1 (path_of out) (joinpath (sample_path svc) sample_name) of
                    Inl e \<Rightarrow> Inl e
                  | Inr fs2 \<Rightarrow> make_samples svc fs2 rest)))"

definition generate_samples :: "service \<Rightarrow> fs \<Rightarrow> error + fs" where
  "generate_samples svc fs =
     (case iterdir fs (sample_path svc) of
        Inl e \<Rightarrow> Inl e
      | Inr files \<Rightarrow>
        (case remove_all (sample_path svc) fs files of
           Inl e \<Rightarrow> Inl e
         | Inr fs1 \<Rightarrow> make_samples svc fs1 (speakers (model svc))))"

subsection \<open>\<open>list_languages\<close>\<close>





section \<open>Vocabulary of the properties\<close>

text \<open>The definitions of this section state properties; none of them is part of the code.\<close>

text \<open>
  The word sequence of a text once newlines count as spaces and runs of whitespace
  separate words.
\<close>

definition words_of :: "string \<Rightarrow> string list" where
  "words_of s = filter (\<lambda>w. w \<noteq> []) (split_chr CHR '' '' (replace_nl s))"

text \<open>
  The budget as the loop keeps it: a chunk is within the budget, or it is exactly one
  piece of the split followed by its space, and that piece has at least \<open>B\<close>
  characters (so that piece and space together exceed \<open>B\<close>).
\<close>

definition chunk_ok :: "nat \<Rightarrow> string set \<Rightarrow> string \<Rightarrow> bool" where
  "chunk_ok B W c \<longleftrightarrow>
     length c \<le> B \<or> (\<exists>w\<in>W. c = replace_nl w @ '' '' \<and> B \<le> length w)"

text \<open>A chunk is empty or ends with the space that follows each word.\<close>

definition sp_term :: "string \<Rightarrow> bool" where
  "sp_term c \<longleftrightarrow> c = [] \<or> (\<exists>a. c = a @ '' '')"

text \<open>What a caller can observe of a result: the returned path and what is stored there.\<close>

definition artifact :: "error + path \<times> fs \<Rightarrow> error + path \<times> node option" where
  "artifact r = (case r of Inl e \<Rightarrow> Inl e | Inr (p, fs') \<Rightarrow> Inr (p, node_at fs' p))"

text \<open>
  What claim C2 says the combined audio is, in the claim's words and not from the code:
  the segments in order, with the silence between consecutive segments only.
\<close>

fun silence_between :: "seg list list \<Rightarrow> seg list" where
  "silence_between [] = []"
| "silence_between [a] = a"
| "silence_between (a # b # rest) = a @ [Silence 500] @ silence_between (b # rest)"



section \<open>Concrete instances\<close>

text \<open>The session manager of the constructor (base path \<open>sessions\<close>) on a file system
  that holds the base directory only.\<close>

definition demo_manager :: session_manager where
  "demo_manager = \<lparr>sessions_path = Path False [''sessions'']\<rparr>"

definition demo_fs :: fs where
  "demo_fs = [(Path False [''sessions''], Dir)]"

text \<open>
  A model with two speakers that writes \<open>test.wav\<close> in the working directory, a remote
  index with one language directory holding one version-3 file, and a service set up as
  the constructor does (budget 600, sample rate 48000), with an absolute sample path.
\<close>

definition demo_model :: tts_model where
  "demo_model = \<lparr>speakers = [''en_0'', ''en_1''], wav_out = ''test.wav'',
                  accepts = (\<lambda>t s. s \<in> set [''en_0'', ''en_1''])\<rparr>"

definition demo_url :: string where
  "demo_url = ''https://models.silero.ai/models/tts/en/v3_en.pt''"

definition demo_langs :: "(string \<times> string) list" where
  "demo_langs = [(''v3_en.pt'', demo_url)]"

definition demo_json :: string where
  "demo_json = ''{\"v3_en.pt\": \"https://models.silero.ai/models/tts/en/v3_en.pt\"}''"

definition demo_get :: "string \<Rightarrow> response option" where
  "demo_get url =
     (if url = ''https://models.silero.ai/models/tts''
      then Some \<lparr>ok = True, status_code = 200, resp_text = ''<pre><a href=\"en/\">en/</a></pre>''\<rparr>
      else if url = ''https://models.silero.ai/models/tts/en''
      then Some \<lparr>ok = True, status_code = 200,
                 resp_text = ''<a href=\"v2_en.pt\">v2_en.pt</a><a href=\"v3_en.pt\">v3_en.pt</a>''\<rparr>
      else Some \<lparr>ok = False, status_code = 404, resp_text = []\<rparr>)"

definition demo_external :: external where
  "demo_external =
     \<lparr>http_get = demo_get,
      fetch_bytes = (\<lambda>url. if url = demo_url then Some ''weights'' else None),
      unpickle = (\<lambda>c. if c = Bytes ''weights'' then Some demo_model else None),
      json_dump = (\<lambda>d. if d = demo_langs then demo_json else ''{}''),
      json_load = (\<lambda>s. if s = demo_json then Some demo_langs
                        else if s = ''{}'' then Some [] else None)\<rparr>"

definition demo_service :: service where
  "demo_service =
     \<lparr>sample_text = ''The fallowed fallen swindle auspacious goats in portable power stations.'',
      sample_path = Path True [''srv'', ''samples''],
      sample_rate = 48000,
      max_char_length = 600,
      langs = demo_langs,
      model_file = Path False [''v3_en.pt''],
      model = demo_model,
      session_manager = demo_manager\<rparr>"

definition demo_fs_s1 :: fs where
  "demo_fs_s1 = [(Path False [''sessions''], Dir), (Path False [''sessions'', ''s1''], Dir)]"

text \<open>A text of 801 characters: two words of 400 characters.\<close>

definition demo_long_text :: string where
  "demo_long_text = replicate 400 CHR ''a'' @ '' '' @ replicate 400 CHR ''b''"


section \<open>Properties of the text chunker\<close>

lemma split_chr_not_Nil: "split_chr sep s \<noteq> []"
  by (induction s) (auto split: list.splits)

lemma split_chr_no_sep: "sep \<notin> set w \<Longrightarrow> split_chr sep w = [w]"
  by (induction w) auto

lemma split_chr_append_sep:
  "split_chr sep (a @ sep # b) = split_chr sep a @ split_chr sep b"
proof (induction a)
  case Nil
  show ?case by simp
next
  case (Cons c a)
  obtain w ws where sp: "split_chr sep a = w # ws"
    using split_chr_not_Nil [of sep a] by (cases "split_chr sep a") auto
  with Cons show ?case by simp
qed

lemma replace_nl_append: "replace_nl (a @ b) = replace_nl a @ replace_nl b"
  by (simp add: replace_nl_def)

lemma replace_nl_idem: "replace_nl (replace_nl s) = replace_nl s"
  by (simp add: replace_nl_def)

lemma replace_nl_space: "replace_nl '' '' = '' ''"
  by (simp add: replace_nl_def)

lemma length_replace_nl: "length (replace_nl w) = length w"
  by (simp add: replace_nl_def)

lemma replace_nl_replicate:
  "c \<noteq> CHR 0x0A \<Longrightarrow> replace_nl (replicate n c) = replicate n c"
  by (simp add: replace_nl_def)

text \<open>Gluing the pieces of a split back, each followed by the separator.\<close>

lemma concat_split_chr:
  "concat (map (\<lambda>w. replace_nl w @ '' '') (split_chr CHR '' '' s)) = replace_nl s @ '' ''"
proof (induction s)
  case Nil
  show ?case by (simp add: replace_nl_def)
next
  case (Cons c s)
  obtain w ws where sp: "split_chr CHR '' '' s = w # ws"
    using split_chr_not_Nil [of "CHR '' ''" s] by (cases "split_chr CHR '' '' s") auto
  show ?case
  proof (cases "c = CHR '' ''")
    case True
    with Cons show ?thesis by (simp add: replace_nl_def)
  next
    case False
    with Cons sp show ?thesis by (simp add: replace_nl_def)
  qed
qed

text \<open>The loop never loses or reorders a character.\<close>

lemma foldl_split_step_concat:
  "concat (fst (foldl (split_step B) st ws)) @ snd (foldl (split_step B) st ws)
     = concat (fst st) @ snd st @ concat (map (\<lambda>w. replace_nl w @ '' '') ws)"
proof (induction ws arbitrary: st)
  case Nil
  show ?case by simp
next
  case (Cons w ws)
  show ?case
    unfolding foldl_Cons Cons.IH
    by (simp add: split_step_def Let_def)
qed

lemma foldl_split_step_snd_not_Nil:
  "ws \<noteq> [] \<Longrightarrow> snd (foldl (split_step B) st ws) \<noteq> []"
proof (induction ws arbitrary: st)
  case Nil
  then show ?case by simp
next
  case (Cons w ws)
  show ?case
  proof (cases ws)
    case Nil
    then show ?thesis by (simp add: split_step_def Let_def)
  next
    case (Cons v vs)
    then have "ws \<noteq> []" by simp
    then show ?thesis using Cons.IH by simp
  qed
qed

lemma split_text_eq:
  "split_text B text =
     fst (foldl (split_step B) ([], []) (split_chr CHR '' '' text))
       @ [snd (foldl (split_step B) ([], []) (split_chr CHR '' '' text))]"
  using foldl_split_step_snd_not_Nil [OF split_chr_not_Nil, of B "([], [])" "CHR '' ''" "text"]
  by (simp add: split_text_def Let_def)

lemma concat_split_text: "concat (split_text B text) = replace_nl text @ '' ''"
  using foldl_split_step_concat [of B "([], [])" "split_chr CHR '' '' text"]
  by (simp add: split_text_eq concat_split_chr)

lemma split_text_not_Nil: "split_text B text \<noteq> []"
  by (simp add: split_text_eq)

lemma split_step_ok:
  assumes "w \<in> W" and "\<forall>c\<in>set (fst st). chunk_ok B W c" and "chunk_ok B W (snd st)"
  shows "(\<forall>c\<in>set (fst (split_step B st w)). chunk_ok B W c)
         \<and> chunk_ok B W (snd (split_step B st w))"
proof (cases "length (snd st @ replace_nl w @ '' '') > B")
  case True
  then have "B \<le> length w \<or> length (replace_nl w @ '' '') \<le> B"
    by (simp add: length_replace_nl) arith
  then have "chunk_ok B W (replace_nl w @ '' '')"
    using assms(1) by (auto simp: chunk_ok_def)
  with True assms show ?thesis by (simp add: split_step_def Let_def)
next
  case False
  then have "chunk_ok B W (snd st @ replace_nl w @ '' '')"
    by (simp add: chunk_ok_def)
  with False assms show ?thesis by (simp add: split_step_def Let_def)
qed

lemma foldl_split_step_ok:
  assumes "set ws \<subseteq> W" and "\<forall>c\<in>set (fst st). chunk_ok B W c" and "chunk_ok B W (snd st)"
  shows "(\<forall>c\<in>set (fst (foldl (split_step B) st ws)). chunk_ok B W c)
         \<and> chunk_ok B W (snd (foldl (split_step B) st ws))"
  using assms
proof (induction ws arbitrary: st)
  case Nil
  then show ?case by simp
next
  case (Cons w ws)
  have w: "w \<in> W" and ws: "set ws \<subseteq> W" using Cons.prems(1) by auto
  from split_step_ok [OF w Cons.prems(2) Cons.prems(3)]
  show ?case using Cons.IH [OF ws, of "split_step B st w"] by simp
qed

lemma split_text_chunk_ok:
  "c \<in> set (split_text B text) \<Longrightarrow> chunk_ok B (set (split_chr CHR '' '' text)) c"
  using foldl_split_step_ok [of "split_chr CHR '' '' text" "set (split_chr CHR '' '' text)"
          "([], [])" B]
  by (auto simp: split_text_eq chunk_ok_def)

text \<open>A text that starts with a word of at least \<open>B\<close> characters.\<close>

lemma split_text_long_single_word:
  assumes "CHR '' '' \<notin> set w" and "B \<le> length w"
  shows "split_text B w = [[], replace_nl w @ '' '']"
  using assms by (simp add: split_text_def split_chr_no_sep split_step_def Let_def length_replace_nl)

lemma words_of_Nil: "words_of [] = []"
  by (simp add: words_of_def replace_nl_def)

lemma words_of_append_space: "words_of (a @ '' '' @ b) = words_of a @ words_of b"
  by (simp add: words_of_def replace_nl_def split_chr_append_sep)

lemma words_of_snoc_space: "words_of (a @ '' '') = words_of a"
  using words_of_append_space [of a "[]"] by (simp add: words_of_Nil)

lemma words_of_sp_term: "sp_term c \<Longrightarrow> words_of (c @ b) = words_of c @ words_of b"
  unfolding sp_term_def
proof (elim disjE exE)
  assume "c = []"
  then show ?thesis by (simp add: words_of_Nil)
next
  fix a assume c: "c = a @ '' ''"
  have "words_of (c @ b) = words_of a @ words_of b"
    unfolding c using words_of_append_space [of a b] by simp
  then show ?thesis unfolding c by (simp add: words_of_snoc_space)
qed

lemma concat_words_of:
  "\<forall>c\<in>set cs. sp_term c \<Longrightarrow> concat (map words_of cs) = words_of (concat cs)"
  by (induction cs) (simp_all add: words_of_Nil words_of_sp_term)

lemma split_step_sp_term:
  assumes "\<forall>c\<in>set (fst st). sp_term c" and "sp_term (snd st)"
  shows "(\<forall>c\<in>set (fst (split_step B st w)). sp_term c) \<and> sp_term (snd (split_step B st w))"
proof -
  have "sp_term (snd st @ replace_nl w @ '' '')" and "sp_term (replace_nl w @ '' '')"
    unfolding sp_term_def by (metis append_assoc, blast)
  with assms show ?thesis by (simp add: split_step_def Let_def)
qed

lemma foldl_split_step_sp_term:
  assumes "\<forall>c\<in>set (fst st). sp_term c" and "sp_term (snd st)"
  shows "(\<forall>c\<in>set (fst (foldl (split_step B) st ws)). sp_term c)
         \<and> sp_term (snd (foldl (split_step B) st ws))"
  using assms
proof (induction ws arbitrary: st)
  case Nil
  then show ?case by simp
next
  case (Cons w ws)
  from split_step_sp_term [OF Cons.prems]
  show ?case using Cons.IH [of "split_step B st w"] by simp
qed

lemma split_text_sp_term: "c \<in> set (split_text B text) \<Longrightarrow> sp_term c"
  using foldl_split_step_sp_term [of "([], [])" B "split_chr CHR '' '' text"]
  by (auto simp: split_text_eq sp_term_def)

lemma words_of_split_text: "concat (map words_of (split_text B text)) = words_of text"
proof -
  have "concat (map words_of (split_text B text)) = words_of (concat (split_text B text))"
    by (rule concat_words_of) (simp add: split_text_sp_term)
  also have "\<dots> = words_of (replace_nl text @ '' '')"
    by (simp add: concat_split_text)
  also have "\<dots> = words_of (replace_nl text)"
    by (rule words_of_snoc_space)
  also have "\<dots> = words_of text"
    by (simp add: words_of_def replace_nl_idem)
  finally show ?thesis .
qed

text \<open>A word that exceeds the budget with its space ends up as a chunk of its own.\<close>

lemma split_step_keeps_oversized:
  assumes "B < length c" and "c \<in> set (fst st) \<or> snd st = c"
  shows "c \<in> set (fst (split_step B st w)) \<or> snd (split_step B st w) = c"
  using assms by (auto simp: split_step_def Let_def)

lemma split_step_starts_oversized:
  assumes "B < length (replace_nl w @ '' '')"
  shows "snd (split_step B st w) = replace_nl w @ '' ''"
  using assms by (simp add: split_step_def Let_def)

lemma foldl_split_step_keeps_oversized:
  "B < length c \<Longrightarrow> c \<in> set (fst st) \<or> snd st = c
     \<Longrightarrow> c \<in> set (fst (foldl (split_step B) st ws)) \<or> snd (foldl (split_step B) st ws) = c"
proof (induction ws arbitrary: st)
  case Nil
  then show ?case by simp
next
  case (Cons w ws)
  from split_step_keeps_oversized [OF Cons.prems, of w]
  show ?case using Cons.IH [OF Cons.prems(1), of "split_step B st w"] by simp
qed

lemma foldl_split_step_oversized_word:
  "w \<in> set ws \<Longrightarrow> B < length (replace_nl w @ '' '')
     \<Longrightarrow> replace_nl w @ '' '' \<in> set (fst (foldl (split_step B) st ws))
         \<or> snd (foldl (split_step B) st ws) = replace_nl w @ '' ''"
proof (induction ws arbitrary: st)
  case Nil
  then show ?case by simp
next
  case (Cons v ws)
  show ?case
  proof (cases "w = v")
    case True
    from split_step_starts_oversized [OF Cons.prems(2), of st]
    have "snd (split_step B st v) = replace_nl w @ '' ''" using True by simp
    then have "replace_nl w @ '' '' \<in> set (fst (split_step B st v))
               \<or> snd (split_step B st v) = replace_nl w @ '' ''" by simp
    from foldl_split_step_keeps_oversized [OF Cons.prems(2) this, of ws]
    show ?thesis by simp
  next
    case False
    with Cons.prems(1) have "w \<in> set ws" by simp
    from Cons.IH [OF this Cons.prems(2), of "split_step B st v"] show ?thesis by simp
  qed
qed

lemma split_text_oversized_word:
  assumes "w \<in> set (split_chr CHR '' '' text)" and "B \<le> length w"
  shows "replace_nl w @ '' '' \<in> set (split_text B text)"
proof -
  from assms(2) have "B < length (replace_nl w @ '' '')"
    by (simp add: length_replace_nl)
  from foldl_split_step_oversized_word [OF assms(1) this, of "([], [])"]
  show ?thesis by (auto simp: split_text_eq)
qed

text \<open>
  Claim C1, as amended. For every text and every budget \<open>B\<close>, the chunks of
  \<open>split_text\<close>, concatenated in order, are the text with each newline replaced by a
  space, followed by one space; their word sequences, concatenated in order, are the word
  sequence of the text; every chunk has at most \<open>B\<close> characters, except a chunk
  that is exactly one piece of the split on single spaces followed by its space, where
  the piece has at least \<open>B\<close> characters (the trailing space counts, so the exception
  starts at a word of length \<open>B\<close>, not \<open>B + 1\<close>); and every such piece is emitted as
  a chunk of its own.
\<close>

theorem split_text_words_and_budget:
  "concat (split_text B text) = replace_nl text @ '' ''
   \<and> concat (map words_of (split_text B text)) = words_of text
   \<and> (\<forall>c\<in>set (split_text B text).
         length c \<le> B
         \<or> (\<exists>w\<in>set (split_chr CHR '' '' text). c = replace_nl w @ '' '' \<and> B \<le> length w))
   \<and> (\<forall>w\<in>set (split_chr CHR '' '' text).
         B \<le> length w \<longrightarrow> replace_nl w @ '' '' \<in> set (split_text B text))"
  using split_text_chunk_ok [of _ B "text"] split_text_oversized_word [of _ "text" B]
  by (simp add: concat_split_text words_of_split_text chunk_ok_def)

text \<open>
  C1 at the text \<open>ab cdefgh\<close> and the budget 5: the second chunk is over the budget
  and is the single word \<open>cdefgh\<close> with its space.
\<close>

theorem split_text_words_and_budget_witness:
  "''cdefgh '' \<in> set (split_text 5 ''ab cdefgh'')
   \<and> \<not> length ''cdefgh '' \<le> (5::nat)
   \<and> (\<exists>w\<in>set (split_chr CHR '' '' ''ab cdefgh''). ''cdefgh '' = replace_nl w @ '' '' \<and> 5 \<le> length w)
   \<and> ''cdefgh'' \<in> set (split_chr CHR '' '' ''ab cdefgh'') \<and> (5::nat) \<le> length ''cdefgh''
   \<and> concat (split_text 5 ''ab cdefgh'') = ''ab cdefgh ''
   \<and> concat (map words_of (split_text 5 ''ab cdefgh'')) = [''ab'', ''cdefgh'']"
proof -
  have mem: "''cdefgh '' \<in> set (split_text 5 ''ab cdefgh'')"
    by (simp add: split_text_def split_step_def replace_nl_def)
  have w: "words_of ''ab cdefgh'' = [''ab'', ''cdefgh'']"
    by (simp add: words_of_def replace_nl_def)
  from split_text_words_and_budget [of 5 "''ab cdefgh''"] mem w
  show ?thesis by (auto simp: replace_nl_def)
qed

text \<open>
  The budget of the constructor, 600, and a text of 602 characters that starts with a word
  of exactly 600 characters.
\<close>

lemma split_text_600_a_b:
  "split_text 600 (replicate 600 CHR ''a'' @ '' b'')
     = [[], replicate 600 CHR ''a'' @ '' '', ''b '']"
proof -
  have sp: "split_chr CHR '' '' (replicate 600 CHR ''a'' @ '' b'') = [replicate 600 CHR ''a'', ''b'']"
    using split_chr_append_sep [of "CHR '' ''" "replicate 600 CHR ''a''" "''b''"]
    by (simp add: split_chr_no_sep)
  show ?thesis
    unfolding split_text_def sp
    by (simp add: split_step_def Let_def length_replace_nl replace_nl_replicate)
       (simp add: replace_nl_def)
qed

text \<open>
  Claim C1 as stated, with the exception read as a word longer than \<open>B\<close>, fails at
  that text: the second chunk has 601 characters, and its word has 600, which is not more
  than the budget.
\<close>

theorem split_text_budget_counterexample:
  "\<not> (\<forall>c\<in>set (split_text 600 (replicate 600 CHR ''a'' @ '' b'')).
         length c \<le> 600
         \<or> (\<exists>w\<in>set (split_chr CHR '' '' (replicate 600 CHR ''a'' @ '' b'')).
               c = replace_nl w @ '' '' \<and> 600 < length w))"
proof -
  have sp: "split_chr CHR '' '' (replicate 600 CHR ''a'' @ '' b'') = [replicate 600 CHR ''a'', ''b'']"
    using split_chr_append_sep [of "CHR '' ''" "replicate 600 CHR ''a''" "''b''"]
    by (simp add: split_chr_no_sep)
  show ?thesis
    unfolding split_text_600_a_b sp by simp
qed

text \<open>
  Claim C10 at a text of 601 characters without a space, under the budget 600: the
  first chunk returned is the empty string, which does not end with a space. The append
  inside the loop has no test for an empty \<open>chunk_str\<close>; the append after the loop has one.
\<close>

theorem split_text_leading_empty_chunk:
  "split_text 600 (replicate 601 CHR ''a'') = [[], replicate 601 CHR ''a'' @ '' '']
   \<and> hd (split_text 600 (replicate 601 CHR ''a'')) = []"
  using split_text_long_single_word [of "replicate 601 CHR ''a''" 600]
  by (simp add: replace_nl_replicate)

text \<open>The empty text gives the single chunk of one space, under any positive budget.\<close>

lemma split_text_empty: "0 < B \<Longrightarrow> split_text B [] = ['' '']"
  by (simp add: split_text_def split_step_def replace_nl_def)

section \<open>Properties of the file system\<close>

lemma node_at_update:
  "node_at (AList.update q n fs) p =
     (if parts p = [] then Some Dir else if p = q then Some n else node_at fs p)"
  by (simp add: node_at_def update_conv')


lemma ensure_dirs_keeps:
  "ensure_dirs fs qs = Inr fs' \<Longrightarrow> node_at fs p \<noteq> None \<Longrightarrow> node_at fs' p = node_at fs p"
proof (induction qs arbitrary: fs)
  case Nil
  then show ?case by simp
next
  case (Cons q qs)
  show ?case
  proof (cases "node_at fs q")
    case None
    with Cons.prems have run: "ensure_dirs (AList.update q Dir fs) qs = Inr fs'" and ne: "p \<noteq> q"
      by auto
    from ne have same: "node_at (AList.update q Dir fs) p = node_at fs p"
      by (cases "parts p = []") (simp add: node_at_def, simp add: node_at_update)
    with Cons.IH [OF run] Cons.prems(2) show ?thesis by simp
  next
    case (Some n)
    with Cons.prems have "ensure_dirs fs qs = Inr fs'"
      by (cases n) auto
    from Cons.IH [OF this Cons.prems(2)] show ?thesis .
  qed
qed

lemma ensure_dirs_makes:
  "ensure_dirs fs qs = Inr fs' \<Longrightarrow> q \<in> set qs \<Longrightarrow> node_at fs' q = Some Dir"
proof (induction qs arbitrary: fs)
  case Nil
  then show ?case by simp
next
  case (Cons r qs)
  show ?case
  proof (cases "node_at fs r")
    case None
    with Cons.prems(1) have run: "ensure_dirs (AList.update r Dir fs) qs = Inr fs'"
      by simp
    show ?thesis
    proof (cases "q \<in> set qs")
      case True
      from Cons.IH [OF run True] show ?thesis .
    next
      case False
      with Cons.prems(2) have qr: "q = r" by simp
      have "node_at (AList.update r Dir fs) r = Some Dir"
        by (simp add: node_at_update)
      with ensure_dirs_keeps [OF run, of r] qr show ?thesis by simp
    qed
  next
    case (Some n)
    with Cons.prems(1) have n: "n = Dir" and run: "ensure_dirs fs qs = Inr fs'"
      by (cases n; simp)+
    show ?thesis
    proof (cases "q \<in> set qs")
      case True
      from Cons.IH [OF run True] show ?thesis .
    next
      case False
      with Cons.prems(2) have qr: "q = r" by simp
      from ensure_dirs_keeps [OF run, of r] Some n qr show ?thesis by simp
    qed
  qed
qed

lemma self_in_ancestors_and_self: "parts p \<noteq> [] \<Longrightarrow> p \<in> set (ancestors_and_self p)"
proof -
  assume ne: "parts p \<noteq> []"
  then have "length (parts p) \<in> set [1 ..< Suc (length (parts p))]"
    by (cases "parts p") auto
  moreover have "Path (is_abs p) (take (length (parts p)) (parts p)) = p"
    by simp
  ultimately show ?thesis
    unfolding ancestors_and_self_def set_map by (metis imageI)
qed

lemma mkdir_parents_is_dir: "mkdir_parents fs p = Inr fs' \<Longrightarrow> is_dir fs' p"
proof -
  assume run: "mkdir_parents fs p = Inr fs'"
  then have ne: "parts p \<noteq> []" and ens: "ensure_dirs fs (ancestors_and_self p) = Inr fs'"
    by (auto simp: mkdir_parents_def path_exists_def node_at_def split: if_splits)
  from ensure_dirs_makes [OF ens self_in_ancestors_and_self [OF ne]]
  show ?thesis by (simp add: is_dir_def)
qed

lemma mkdir_parents_keeps:
  "mkdir_parents fs p = Inr fs' \<Longrightarrow> node_at fs q \<noteq> None \<Longrightarrow> node_at fs' q = node_at fs q"
  by (auto simp: mkdir_parents_def split: if_splits dest: ensure_dirs_keeps)

lemma is_dir_exists: "is_dir fs p \<Longrightarrow> path_exists fs p"
  by (simp add: is_dir_def path_exists_def)

lemma exists_cases: "path_exists fs p \<Longrightarrow> is_dir fs p \<or> is_file fs p"
  by (auto simp: path_exists_def is_dir_def is_file_def split: option.splits node.splits)

section \<open>Properties of the session manager\<close>


lemma demo_join: "joinpath (Path False [''sessions'']) (path_of ''s1'') = Path False [''sessions'', ''s1'']"
  by (simp add: joinpath_def path_of_def startswith_def)

lemma demo_join_date:
  "joinpath (Path False [''sessions'']) (path_of ''20261103'') = Path False [''sessions'', ''20261103'']"
  by (simp add: joinpath_def path_of_def startswith_def)

lemma demo_ancestors:
  "ancestors_and_self (Path False [a, b]) = [Path False [a], Path False [a, b]]"
  by (simp add: ancestors_and_self_def upt_rec)

lemma demo_init_session_path:
  "init_session_path demo_fs demo_manager ''s1''
     = Inr (Path False [''sessions'', ''s1''], demo_fs @ [(Path False [''sessions'', ''s1''], Dir)])"
  by (simp add: init_session_path_def Let_def demo_manager_def demo_fs_def demo_join
        path_exists_def mkdir_parents_def demo_ancestors node_at_def)


lemma create_session_None_exists:
  assumes "create_session fs sm date_str None = Inr (sid, fs')"
  shows "sid = date_str"
    and "path_exists fs' (joinpath (sessions_path sm) (path_of date_str))"
    and "is_file fs (joinpath (sessions_path sm) (path_of date_str))
         \<or> is_dir fs' (joinpath (sessions_path sm) (path_of date_str))"
proof -
  let ?sp = "joinpath (sessions_path sm) (path_of date_str)"
  from assms show "sid = date_str"
    by (auto simp: create_session_def Let_def split: if_splits sum.splits)
  show "path_exists fs' ?sp" and "is_file fs ?sp \<or> is_dir fs' ?sp"
  proof -
    have "path_exists fs' ?sp \<and> (is_file fs ?sp \<or> is_dir fs' ?sp)"
    proof (cases "path_exists fs ?sp")
      case True
      with assms have "fs' = fs" by (simp add: create_session_def Let_def)
      with True exists_cases [OF True] show ?thesis by auto
    next
      case False
      with assms have "mkdir_parents fs ?sp = Inr fs'"
        by (auto simp: create_session_def Let_def split: sum.splits)
      from mkdir_parents_is_dir [OF this] show ?thesis
        by (simp add: is_dir_exists)
    qed
    then show "path_exists fs' ?sp" and "is_file fs ?sp \<or> is_dir fs' ?sp" by simp_all
  qed
qed

lemma init_session_path_exists:
  assumes "init_session_path fs sm session_id = Inr (p, fs')"
  shows "p = joinpath (sessions_path sm) (path_of session_id)"
    and "path_exists fs' p"
    and "is_file fs p \<or> is_dir fs' p"
proof -
  let ?sp = "joinpath (sessions_path sm) (path_of session_id)"
  from assms show p: "p = ?sp"
    by (auto simp: init_session_path_def Let_def split: if_splits sum.splits)
  have "path_exists fs' ?sp \<and> (is_file fs ?sp \<or> is_dir fs' ?sp)"
  proof (cases "path_exists fs ?sp")
    case True
    with assms have "fs' = fs" by (simp add: init_session_path_def Let_def)
    with True exists_cases [OF True] show ?thesis by auto
  next
    case False
    with assms have "mkdir_parents fs ?sp = Inr fs'"
      by (auto simp: init_session_path_def Let_def split: sum.splits)
    from mkdir_parents_is_dir [OF this] show ?thesis
      by (simp add: is_dir_exists)
  qed
  with p show "path_exists fs' p" and "is_file fs p \<or> is_dir fs' p" by simp_all
qed

text \<open>
  Claim C4, as amended. A successful \<open>create_session\<close> without an id returns the id
  derived from the date, and afterwards the path of that id under the base path exists,
  as a directory unless a regular file already had that path. With an id given,
  \<open>create_session\<close> succeeds and returns the id; the directory of a given id is ensured
  by \<open>init_session_path\<close>, after which its path exists in the same sense.
\<close>

theorem create_session_directory:
  "(create_session fs sm date_str None = Inr (sid, fs')
      \<longrightarrow> sid = date_str
          \<and> path_exists fs' (joinpath (sessions_path sm) (path_of date_str))
          \<and> (is_file fs (joinpath (sessions_path sm) (path_of date_str))
             \<or> is_dir fs' (joinpath (sessions_path sm) (path_of date_str))))
   \<and> (\<exists>fs3. create_session fs sm date_str (Some given) = Inr (given, fs3))
   \<and> (init_session_path fs sm given = Inr (p, fs2)
      \<longrightarrow> p = joinpath (sessions_path sm) (path_of given)
          \<and> path_exists fs2 p \<and> (is_file fs p \<or> is_dir fs2 p))"
  using create_session_None_exists [of fs sm date_str sid fs']
        init_session_path_exists [of fs sm given p fs2]
  by (simp add: create_session_def)

lemma demo_create_session:
  "create_session demo_fs demo_manager ''20261103'' None
     = Inr (''20261103'', demo_fs @ [(Path False [''sessions'', ''20261103''], Dir)])"
  by (simp add: create_session_def Let_def demo_manager_def demo_fs_def demo_join_date
        path_exists_def mkdir_parents_def demo_ancestors node_at_def)

text \<open>C4 as amended, on the base directory alone, for the date 20261103 and the id \<open>s1\<close>.\<close>

theorem create_session_directory_witness:
  "create_session demo_fs demo_manager ''20261103'' None
     = Inr (''20261103'', demo_fs @ [(Path False [''sessions'', ''20261103''], Dir)])
   \<and> is_dir (demo_fs @ [(Path False [''sessions'', ''20261103''], Dir)])
        (joinpath (sessions_path demo_manager) (path_of ''20261103''))
   \<and> \<not> is_file demo_fs (joinpath (sessions_path demo_manager) (path_of ''20261103''))
   \<and> init_session_path demo_fs demo_manager ''s1''
       = Inr (Path False [''sessions'', ''s1''], demo_fs @ [(Path False [''sessions'', ''s1''], Dir)])
   \<and> is_dir (demo_fs @ [(Path False [''sessions'', ''s1''], Dir)]) (Path False [''sessions'', ''s1''])"
proof -
  have nf: "\<not> is_file demo_fs (joinpath (sessions_path demo_manager) (path_of ''20261103''))"
    by (simp add: demo_manager_def demo_fs_def demo_join_date is_file_def node_at_def)
  have nf2: "\<not> is_file demo_fs (Path False [''sessions'', ''s1''])"
    by (simp add: demo_fs_def is_file_def node_at_def)
  have j: "joinpath (sessions_path demo_manager) (path_of ''s1'') = Path False [''sessions'', ''s1'']"
    by (simp add: demo_manager_def demo_join)
  from create_session_directory [of demo_fs demo_manager "''20261103''" "''20261103''"
         "demo_fs @ [(Path False [''sessions'', ''20261103''], Dir)]" "''s1''"
         "Path False [''sessions'', ''s1'']" "demo_fs @ [(Path False [''sessions'', ''s1''], Dir)]"]
       demo_create_session demo_init_session_path nf nf2
  show ?thesis by (simp add: j)
qed

text \<open>
  Claim C4 as stated fails for an id that is supplied: the call succeeds, returns the id,
  and the directory of the id does not exist afterwards.
\<close>

theorem create_session_given_counterexample:
  "create_session demo_fs demo_manager ''20261103'' (Some ''s1'') = Inr (''s1'', demo_fs)
   \<and> \<not> path_exists demo_fs (joinpath (sessions_path demo_manager) (path_of ''s1''))"
  by (simp add: create_session_def demo_manager_def demo_fs_def demo_join path_exists_def node_at_def)

text \<open>
  Claim C8. After a successful \<open>create_session\<close> without an id, a second call on the
  same day (the same \<open>date_str\<close>) succeeds, returns the same id and changes nothing.
\<close>

theorem create_session_twice:
  "create_session fs sm date_str None = Inr (sid, fs1)
     \<Longrightarrow> create_session fs1 sm date_str None = Inr (sid, fs1)"
proof -
  assume run: "create_session fs sm date_str None = Inr (sid, fs1)"
  from create_session_None_exists(1,2) [OF run]
  show ?thesis by (simp add: create_session_def Let_def)
qed

text \<open>C8 on the base directory alone, for the date 20261103.\<close>

theorem create_session_twice_witness:
  "create_session demo_fs demo_manager ''20261103'' None
     = Inr (''20261103'', demo_fs @ [(Path False [''sessions'', ''20261103''], Dir)])
   \<and> create_session (demo_fs @ [(Path False [''sessions'', ''20261103''], Dir)]) demo_manager ''20261103'' None
     = Inr (''20261103'', demo_fs @ [(Path False [''sessions'', ''20261103''], Dir)])"
  using create_session_twice [OF demo_create_session] demo_create_session by simp

lemma write_file_node:
  "write_file fs p c = Inr fs' \<Longrightarrow> node_at fs' p = Some (File c)"
  by (auto simp: write_file_def node_at_def update_conv' split: option.splits node.splits if_splits)

lemma write_file_fs:
  "write_file fs p c = Inr fs' \<Longrightarrow> fs' = AList.update p (File c) fs"
  by (auto simp: write_file_def split: option.splits node.splits)

lemma is_file_node: "is_file fs p \<longleftrightarrow> (\<exists>c. node_at fs p = Some (File c))"
  by (auto simp: is_file_def split: option.splits node.splits)

section \<open>Properties of \<open>load_model\<close>\<close>

lemma load_model_unknown:
  "map_of (langs svc) lang_model = None
     \<Longrightarrow> load_model ext svc fs lang_model = Inl (NotInLangs lang_model (map snd (langs svc)))"
  by (simp add: load_model_def)

lemma load_model_known_no_lang_error:
  "map_of (langs svc) lang_model = Some url \<Longrightarrow> load_model ext svc fs lang_model \<noteq> Inl (NotInLangs l vs)"
  by (auto simp: load_model_def Let_def download_url_to_file_def write_file_def load_pickle_def read_file_def
           split: sum.splits option.splits node.splits if_splits content.splits)

lemma load_model_present:
  assumes "map_of (langs svc) lang_model = Some url"
    and "node_at fs (path_of lang_model) = Some (File c)"
    and "load_model ext svc fs lang_model = Inr (svc', fs')"
  shows "fs' = fs" and "unpickle ext c = Some (model svc')" and "model_file svc' = path_of lang_model"
  using assms
  by (auto simp: load_model_def Let_def is_file_node load_pickle_def read_file_def
           split: sum.splits option.splits)

lemma load_model_absent:
  assumes "map_of (langs svc) lang_model = Some url"
    and "\<not> is_file fs (path_of lang_model)"
    and "load_model ext svc fs lang_model = Inr (svc', fs')"
  shows "\<exists>b. fetch_bytes ext url = Some b
             \<and> node_at fs' (path_of lang_model) = Some (File (Bytes b))
             \<and> unpickle ext (Bytes b) = Some (model svc')"
proof -
  from assms obtain m where dl: "download_url_to_file ext fs url (path_of lang_model) = Inr fs'"
    and lp: "load_pickle ext fs' (path_of lang_model) = Inr m" and m: "model svc' = m"
    by (auto simp: load_model_def Let_def split: sum.splits)
  from dl obtain b where b: "fetch_bytes ext url = Some b"
    and w: "write_file fs (path_of lang_model) (Bytes b) = Inr fs'"
    by (auto simp: download_url_to_file_def split: option.splits)
  from write_file_node [OF w] lp m b show ?thesis
    by (auto simp: load_pickle_def read_file_def split: option.splits)
qed

text \<open>
  Claim C7. For an id that is not a key of the registry, \<open>load_model\<close> fails with the
  invalid-language error (the id and the registry's URLs). For an id that is a key,
  it never fails with that error, and when it succeeds: if a regular file with the id's
  name is already there, nothing is downloaded (the file system is unchanged) and the
  model is loaded from that file; otherwise the bytes of the id's URL are downloaded into
  that file and the model is loaded from them.
\<close>

theorem load_model_registry:
  "(map_of (langs svc) lang_model = None
      \<longrightarrow> load_model ext svc fs lang_model = Inl (NotInLangs lang_model (map snd (langs svc))))
   \<and> (map_of (langs svc) lang_model = Some url
      \<longrightarrow> load_model ext svc fs lang_model \<noteq> Inl (NotInLangs l vs)
          \<and> (load_model ext svc fs lang_model = Inr (svc', fs')
             \<longrightarrow> model_file svc' = path_of lang_model
                 \<and> (\<forall>c. node_at fs (path_of lang_model) = Some (File c)
                        \<longrightarrow> fs' = fs \<and> unpickle ext c = Some (model svc'))
                 \<and> (\<not> is_file fs (path_of lang_model)
                        \<longrightarrow> (\<exists>b. fetch_bytes ext url = Some b
                                 \<and> node_at fs' (path_of lang_model) = Some (File (Bytes b))
                                 \<and> unpickle ext (Bytes b) = Some (model svc')))))"
proof (intro conjI impI allI)
  assume "map_of (langs svc) lang_model = None"
  then show "load_model ext svc fs lang_model = Inl (NotInLangs lang_model (map snd (langs svc)))"
    by (rule load_model_unknown)
next
  assume "map_of (langs svc) lang_model = Some url"
  then show "load_model ext svc fs lang_model \<noteq> Inl (NotInLangs l vs)"
    by (rule load_model_known_no_lang_error)
next
  assume "map_of (langs svc) lang_model = Some url" "load_model ext svc fs lang_model = Inr (svc', fs')"
  then show "model_file svc' = path_of lang_model"
    by (auto simp: load_model_def Let_def split: sum.splits)
next
  fix c
  assume "map_of (langs svc) lang_model = Some url" "load_model ext svc fs lang_model = Inr (svc', fs')"
    "node_at fs (path_of lang_model) = Some (File c)"
  then show "fs' = fs" and "unpickle ext c = Some (model svc')"
    using load_model_present by blast+
next
  assume "map_of (langs svc) lang_model = Some url" "load_model ext svc fs lang_model = Inr (svc', fs')"
    "\<not> is_file fs (path_of lang_model)"
  then show "\<exists>b. fetch_bytes ext url = Some b
                 \<and> node_at fs' (path_of lang_model) = Some (File (Bytes b))
                 \<and> unpickle ext (Bytes b) = Some (model svc')"
    using load_model_absent by blast
qed

lemma demo_path_of_v3: "path_of ''v3_en.pt'' = Path False [''v3_en.pt'']"
  by (simp add: path_of_def startswith_def)

lemma demo_load_model:
  "load_model demo_external demo_service demo_fs ''v3_en.pt''
     = Inr (demo_service\<lparr>model_file := Path False [''v3_en.pt''], model := demo_model\<rparr>,
            demo_fs @ [(Path False [''v3_en.pt''], File (Bytes ''weights''))])"
  by (simp add: load_model_def Let_def demo_service_def demo_langs_def demo_path_of_v3
        is_file_def node_at_def demo_fs_def download_url_to_file_def demo_external_def
        write_file_def parent_def load_pickle_def read_file_def)

text \<open>
  C7 on the demo registry: \<open>v3_ru.pt\<close> is not a key and is refused; \<open>v3_en.pt\<close> is a
  key, its file is absent, and it is downloaded and loaded.
\<close>

theorem load_model_registry_witness:
  "map_of (langs demo_service) ''v3_ru.pt'' = None
   \<and> load_model demo_external demo_service demo_fs ''v3_ru.pt''
       = Inl (NotInLangs ''v3_ru.pt'' [demo_url])
   \<and> map_of (langs demo_service) ''v3_en.pt'' = Some demo_url
   \<and> \<not> is_file demo_fs (path_of ''v3_en.pt'')
   \<and> load_model demo_external demo_service demo_fs ''v3_en.pt''
       = Inr (demo_service\<lparr>model_file := Path False [''v3_en.pt''], model := demo_model\<rparr>,
              demo_fs @ [(Path False [''v3_en.pt''], File (Bytes ''weights''))])
   \<and> fetch_bytes demo_external demo_url = Some ''weights''
   \<and> node_at (demo_fs @ [(Path False [''v3_en.pt''], File (Bytes ''weights''))]) (path_of ''v3_en.pt'')
       = Some (File (Bytes ''weights''))
   \<and> unpickle demo_external (Bytes ''weights'') = Some demo_model"
proof -
  have none: "map_of (langs demo_service) ''v3_ru.pt'' = None"
    by (simp add: demo_service_def demo_langs_def)
  have some: "map_of (langs demo_service) ''v3_en.pt'' = Some demo_url"
    by (simp add: demo_service_def demo_langs_def)
  have nf: "\<not> is_file demo_fs (path_of ''v3_en.pt'')"
    by (simp add: demo_path_of_v3 is_file_def node_at_def demo_fs_def)
  have vals: "map snd (langs demo_service) = [demo_url]"
    by (simp add: demo_service_def demo_langs_def)
  from load_model_registry [of demo_service "''v3_ru.pt''" demo_external demo_fs] none vals
  have a: "load_model demo_external demo_service demo_fs ''v3_ru.pt''
       = Inl (NotInLangs ''v3_ru.pt'' [demo_url])" by simp
  from load_model_registry [of demo_service "''v3_en.pt''" demo_external demo_fs demo_url _ _
         "demo_service\<lparr>model_file := Path False [''v3_en.pt''], model := demo_model\<rparr>"
         "demo_fs @ [(Path False [''v3_en.pt''], File (Bytes ''weights''))]"]
       some nf demo_load_model
  have b: "\<exists>b. fetch_bytes demo_external demo_url = Some b
       \<and> node_at (demo_fs @ [(Path False [''v3_en.pt''], File (Bytes ''weights''))]) (path_of ''v3_en.pt'')
           = Some (File (Bytes b))
       \<and> unpickle demo_external (Bytes b) = Some demo_model"
    by (simp add: demo_path_of_v3)
  have f: "fetch_bytes demo_external demo_url = Some ''weights''"
    by (simp add: demo_external_def)
  from a b f none some nf demo_load_model show ?thesis by auto
qed

section \<open>Properties of \<open>list_languages\<close>\<close>








section \<open>Properties of \<open>generate\<close>\<close>

lemma save_wav_Inr:
  assumes "save_wav m fs t s r = Inr (out, fs1)"
  shows "out = wav_out m"
    and "fs1 = AList.update (path_of (wav_out m)) (File (Audio [Voice t s r])) fs"
  using assms by (auto simp: save_wav_def split: if_splits)

lemma from_file_after_save_wav:
  assumes "save_wav m fs t s r = Inr (out, fs1)" and "from_file fs1 (path_of out) = Inr a"
  shows "a = [Voice t s r]"
proof -
  note sw = save_wav_Inr [OF assms(1)]
  show ?thesis
  proof (cases "parts (path_of (wav_out m)) = []")
    case True
    with assms(2) sw show ?thesis
      by (simp add: from_file_def read_file_def node_at_def)
  next
    case False
    with assms(2) sw show ?thesis
      by (simp add: from_file_def read_file_def node_at_update)
  qed
qed

lemma synth_chunks_combined:
  "synth_chunks m r sp chunks st = Inr (fs', acc')
     \<Longrightarrow> acc' = snd st @ concat (map (\<lambda>c. [Silence 500, Voice c sp r]) chunks)"
proof (induction chunks arbitrary: st)
  case Nil
  then show ?case by simp
next
  case (Cons c chunks)
  from Cons.prems obtain out fs1 a where
    sw: "save_wav m (fst st) c sp r = Inr (out, fs1)"
    and ff: "from_file fs1 (path_of out) = Inr a"
    and rest: "synth_chunks m r sp chunks (fs1, (snd st @ [Silence 500]) @ a) = Inr (fs', acc')"
    by (auto split: sum.splits)
  from from_file_after_save_wav [OF sw ff] have a: "a = [Voice c sp r]" .
  from Cons.IH [OF rest] a show ?case by simp
qed

text \<open>
  Claim C2, as amended. When the text is longer than the budget and \<open>generate\<close>
  succeeds, the returned path is the session directory joined with the name built from
  speaker, session and timestamp (ending in \<open>_combined.wav\<close>), its components are those
  of the session directory followed by those of the name, and the file stored there is
  the audio made of, for each chunk of \<open>split_text\<close> in order, a silence of 500 ms
  followed by the segment synthesised for that chunk: the silence comes before every
  chunk, the first included, and none follows the last.
\<close>

theorem generate_long_combined:
  assumes "length text > max_char_length svc"
    and "generate svc fs now speaker text session = Inr (p, fs')"
  shows "p = joinpath (joinpath (sessions_path (session_manager svc)) (path_of session))
               (path_of (''tts_'' @ speaker @ ''_'' @ session @ ''_'' @ str_of_nat now @ ''_combined.wav''))
         \<and> parts p = parts (joinpath (sessions_path (session_manager svc)) (path_of session))
                      @ parts (path_of (''tts_'' @ speaker @ ''_'' @ session @ ''_'' @ str_of_nat now @ ''_combined.wav''))
         \<and> node_at fs' p
             = Some (File (Audio (concat (map (\<lambda>chunk. [Silence 500, Voice chunk speaker (sample_rate svc)])
                                            (split_text (max_char_length svc) text)))))"
proof -
  let ?sp = "joinpath (sessions_path (session_manager svc)) (path_of session)"
  let ?name = "''tts_'' @ speaker @ ''_'' @ session @ ''_'' @ str_of_nat now @ ''_combined.wav''"
  from assms obtain fs1 combined where
    sc: "synth_chunks (model svc) (sample_rate svc) speaker (split_text (max_char_length svc) text) (fs, [])
           = Inr (fs1, combined)"
    and wr: "write_file fs1 (joinpath ?sp (path_of ?name)) (Audio combined) = Inr fs'"
    and p: "p = joinpath ?sp (path_of ?name)"
    by (auto simp: generate_def get_session_path_def Let_def split: if_splits sum.splits)
  have rel: "\<not> is_abs (path_of ?name)"
    by (simp add: path_of_def startswith_def)
  from synth_chunks_combined [OF sc] write_file_node [OF wr] p rel
  show ?thesis by (simp add: joinpath_def)
qed

lemma demo_split_long:
  "split_text 600 demo_long_text = [replicate 400 CHR ''a'' @ '' '', replicate 400 CHR ''b'' @ '' '']"
proof -
  have sp: "split_chr CHR '' '' demo_long_text = [replicate 400 CHR ''a'', replicate 400 CHR ''b'']"
    unfolding demo_long_text_def
    using split_chr_append_sep [of "CHR '' ''" "replicate 400 CHR ''a''" "replicate 400 CHR ''b''"]
    by (simp add: split_chr_no_sep)
  show ?thesis
    unfolding split_text_def sp
    by (simp add: split_step_def Let_def length_replace_nl replace_nl_replicate)
qed

lemma demo_now: "str_of_nat 1730642400 = ''1730642400''"
  by (simp add: str_of_nat.simps digit_char_def)

lemma demo_session_path:
  "get_session_path demo_fs_s1 demo_manager ''s1'' = Inr (Path False [''sessions'', ''s1''])"
  by (simp add: get_session_path_def Let_def demo_manager_def demo_join path_exists_def
        node_at_def demo_fs_s1_def)

lemma demo_generate_long:
  "generate demo_service demo_fs_s1 1730642400 ''en_0'' demo_long_text ''s1''
     = Inr (Path False [''sessions'', ''s1'', ''tts_en_0_s1_1730642400_combined.wav''],
            demo_fs_s1
            @ [(Path False [''test.wav''], File (Audio [Voice (replicate 400 CHR ''b'' @ '' '') ''en_0'' 48000])),
               (Path False [''sessions'', ''s1'', ''tts_en_0_s1_1730642400_combined.wav''],
                File (Audio [Silence 500, Voice (replicate 400 CHR ''a'' @ '' '') ''en_0'' 48000,
                             Silence 500, Voice (replicate 400 CHR ''b'' @ '' '') ''en_0'' 48000]))])"
proof -
  have len: "length demo_long_text > 600"
    by (simp add: demo_long_text_def)
  have sv: "session_manager demo_service = demo_manager" "max_char_length demo_service = 600"
    "model demo_service = demo_model" "sample_rate demo_service = 48000"
    by (simp_all add: demo_service_def)
  have name: "path_of ''tts_en_0_s1_1730642400_combined.wav''
                = Path False [''tts_en_0_s1_1730642400_combined.wav'']"
    by (simp add: path_of_def startswith_def)
  have out: "path_of ''test.wav'' = Path False [''test.wav'']"
    by (simp add: path_of_def startswith_def)
  have sc: "synth_chunks demo_model 48000 ''en_0''
              [replicate 400 CHR ''a'' @ '' '', replicate 400 CHR ''b'' @ '' ''] (demo_fs_s1, [])
            = Inr (demo_fs_s1 @ [(Path False [''test.wav''],
                                  File (Audio [Voice (replicate 400 CHR ''b'' @ '' '') ''en_0'' 48000]))],
                   [Silence 500, Voice (replicate 400 CHR ''a'' @ '' '') ''en_0'' 48000,
                    Silence 500, Voice (replicate 400 CHR ''b'' @ '' '') ''en_0'' 48000])"
    by (simp add: save_wav_def demo_model_def out from_file_def read_file_def node_at_def demo_fs_s1_def)
  show ?thesis
    unfolding generate_def sv demo_session_path demo_split_long Let_def sc
    using len
    by (simp add: demo_now name joinpath_def write_file_def node_at_def demo_fs_s1_def parent_def)
qed

text \<open>C2 as amended, on the demo service and the text of two words of 400 characters.\<close>

theorem generate_long_combined_witness:
  "length demo_long_text > max_char_length demo_service
   \<and> (\<exists>fs'. generate demo_service demo_fs_s1 1730642400 ''en_0'' demo_long_text ''s1''
              = Inr (Path False [''sessions'', ''s1'', ''tts_en_0_s1_1730642400_combined.wav''], fs')
         \<and> node_at fs' (Path False [''sessions'', ''s1'', ''tts_en_0_s1_1730642400_combined.wav''])
             = Some (File (Audio [Silence 500, Voice (replicate 400 CHR ''a'' @ '' '') ''en_0'' 48000,
                                  Silence 500, Voice (replicate 400 CHR ''b'' @ '' '') ''en_0'' 48000])))"
proof -
  have len: "length demo_long_text > max_char_length demo_service"
    by (simp add: demo_long_text_def demo_service_def)
  have sv: "max_char_length demo_service = 600" "sample_rate demo_service = 48000"
    by (simp_all add: demo_service_def)
  from generate_long_combined [OF len demo_generate_long, THEN conjunct2, THEN conjunct2]
  have "node_at (demo_fs_s1
            @ [(Path False [''test.wav''], File (Audio [Voice (replicate 400 CHR ''b'' @ '' '') ''en_0'' 48000])),
               (Path False [''sessions'', ''s1'', ''tts_en_0_s1_1730642400_combined.wav''],
                File (Audio [Silence 500, Voice (replicate 400 CHR ''a'' @ '' '') ''en_0'' 48000,
                             Silence 500, Voice (replicate 400 CHR ''b'' @ '' '') ''en_0'' 48000]))])
          (Path False [''sessions'', ''s1'', ''tts_en_0_s1_1730642400_combined.wav''])
        = Some (File (Audio [Silence 500, Voice (replicate 400 CHR ''a'' @ '' '') ''en_0'' 48000,
                             Silence 500, Voice (replicate 400 CHR ''b'' @ '' '') ''en_0'' 48000]))"
    by (simp add: sv demo_split_long)
  with len demo_generate_long show ?thesis by simp
qed

text \<open>
  Claim C2 as stated fails on the same call: the file produced starts with a silence, so
  it is not the segments with the silence between consecutive chunks only.
\<close>

theorem generate_long_counterexample:
  "artifact (generate demo_service demo_fs_s1 1730642400 ''en_0'' demo_long_text ''s1'')
     = Inr (Path False [''sessions'', ''s1'', ''tts_en_0_s1_1730642400_combined.wav''],
            Some (File (Audio ([Silence 500]
                   @ silence_between (map (\<lambda>chunk. [Voice chunk ''en_0'' 48000])
                                         (split_text 600 demo_long_text))))))
   \<and> artifact (generate demo_service demo_fs_s1 1730642400 ''en_0'' demo_long_text ''s1'')
     \<noteq> Inr (Path False [''sessions'', ''s1'', ''tts_en_0_s1_1730642400_combined.wav''],
            Some (File (Audio (silence_between (map (\<lambda>chunk. [Voice chunk ''en_0'' 48000])
                                                   (split_text 600 demo_long_text))))))"
  unfolding demo_generate_long demo_split_long
  by (simp add: artifact_def node_at_def demo_fs_s1_def)

text \<open>
  Claim C3 on the demo service, for a text within the budget and the initialised session
  \<open>s1\<close>: the model's output is copied into the session directory under the name built
  from speaker, session and timestamp, but the path returned is the model's own output
  file \<open>test.wav\<close>, not the copy. The branch for long texts returns the file in the
  session directory.
\<close>

theorem generate_short_returns_model_output:
  "generate demo_service demo_fs_s1 1730642400 ''en_0'' ''hello'' ''s1''
     = Inr (Path False [''test.wav''],
            demo_fs_s1
            @ [(Path False [''test.wav''], File (Audio [Voice ''hello'' ''en_0'' 48000])),
               (Path False [''sessions'', ''s1'', ''tts_en_0_s1_1730642400.wav''],
                File (Audio [Voice ''hello'' ''en_0'' 48000]))])
   \<and> Path False [''test.wav''] \<noteq> Path False [''sessions'', ''s1'', ''tts_en_0_s1_1730642400.wav'']"
proof -
  have sv: "session_manager demo_service = demo_manager" "max_char_length demo_service = 600"
    "model demo_service = demo_model" "sample_rate demo_service = 48000"
    by (simp_all add: demo_service_def)
  have name: "path_of ''tts_en_0_s1_1730642400.wav'' = Path False [''tts_en_0_s1_1730642400.wav'']"
    by (simp add: path_of_def startswith_def)
  have out: "path_of ''test.wav'' = Path False [''test.wav'']"
    by (simp add: path_of_def startswith_def)
  show ?thesis
    unfolding generate_def sv demo_session_path Let_def
    by (simp add: save_wav_def demo_model_def demo_now name out joinpath_def shutil_copy_def
          is_dir_def write_file_def node_at_def demo_fs_s1_def parent_def)
qed

text \<open>In general, the path returned for a text within the budget is the model's output file.\<close>

lemma generate_short_returns:
  assumes "\<not> length text > max_char_length svc"
    and "generate svc fs now speaker text session = Inr (p, fs')"
  shows "p = path_of (wav_out (model svc))"
  using assms
  by (auto simp: generate_def Let_def save_wav_def split: sum.splits if_splits)

section \<open>Properties of \<open>generate_samples\<close>\<close>















text \<open>
  Why the sample path has to be absolute: the first loop joins the sample path to what
  \<open>iterdir\<close> yields, which already starts with the sample path, so under a relative
  sample path it asks to remove \<open>samples/samples/old.wav\<close> and fails.
\<close>

lemma generate_samples_relative_sample_path:
  "generate_samples (demo_service\<lparr>sample_path := Path False [''samples'']\<rparr>)
     [(Path False [''samples''], Dir), (Path False [''samples'', ''old.wav''], File (Audio []))]
   = Inl FileNotFoundError"
  by (simp add: generate_samples_def iterdir_def node_at_def entries_def parent_def
        joinpath_def os_remove_def)

end
